theory Spec2Isabelle
  imports Complex_Main
begin

section \<open>Data model of the drag-and-drop provider\<close>

text \<open>
  The provider (\<^verbatim>\<open>DndProvider.tsx\<close>) keeps its registry and its interaction cursor in
  shared values and reacts to the three callbacks of one pan gesture. The embedding keeps
  the names of the source. A shared value is modelled by the value it holds; JavaScript
  numbers are modelled by \<^typ>\<open>real\<close> (rounding is not modelled).

  Keys produced by \<^verbatim>\<open>Object.entries\<close> are strings, so an identifier is a string.
\<close>

type_synonym UniqueIdentifier = string

record Point =
  px :: real
  py :: real

record Rectangle =
  rx :: real
  ry :: real
  rwidth :: real
  rheight :: real

text \<open>The state enumeration of the gesture recogniser, in the order of its numeric codes 0 to 5.\<close>

datatype GestureState = UNDETERMINED | FAILED | BEGAN | CANCELLED | ACTIVE | END

text \<open>The string stored in \<^verbatim>\<open>draggableStates[id].value\<close>.\<close>

datatype DraggableState = resting | pending | dragging | acting

text \<open>
  Modelled from the spec: the option types \<^verbatim>\<open>ItemOptions\<close>, \<^verbatim>\<open>DraggableOptions\<close> and
  \<^verbatim>\<open>DroppableOptions\<close> of \<^verbatim>\<open>./DndContext\<close>, which is not among the sources. Every item
  has a \<open>disabled\<close> flag and an opaque payload; a draggable item has an activation delay
  and an activation tolerance as well. The provider reads \<^verbatim>\<open>disabled\<close>,
  \<^verbatim>\<open>activationDelay\<close> and \<^verbatim>\<open>activationTolerance\<close>.
\<close>

record ItemOptions =
  disabled :: bool
  data :: string

record DraggableItemOptions = ItemOptions +
  activationDelay :: real
  activationTolerance :: real

text \<open>A failed property read on \<^verbatim>\<open>undefined\<close>.\<close>

datatype error = TypeError

datatype Axis = AxisX | AxisY

record Spring =
  toValue :: real
  velocity :: real

text \<open>
  The consumer callbacks the provider invokes, with the meta argument each one receives.
  In \<open>OnDragEnd\<close> the value \<open>None\<close> stands for both \<^verbatim>\<open>null\<close> and \<^verbatim>\<open>undefined\<close>.
\<close>

datatype Callback =
    OnBegin UniqueIdentifier Rectangle
  | OnUpdate UniqueIdentifier Rectangle "UniqueIdentifier option"
  | OnFinalize UniqueIdentifier Rectangle
  | OnDragEnd "DraggableItemOptions option" "ItemOptions option"

text \<open>The props of the provider that the gesture handlers read.\<close>

record DndProviderProps =
  provider_disabled :: bool
  has_onBegin :: bool
  has_onUpdate :: bool
  has_onFinalize :: bool
  has_onDragEnd :: bool

text \<open>
  The state the handlers work on. The two layout registries are association lists in the
  order in which \<^verbatim>\<open>Object.entries\<close> enumerates them; the other registries are only ever
  indexed by key.

  The handlers are built inside \<^verbatim>\<open>useMemo\<close>, and the variable \<^verbatim>\<open>timeout\<close> is a local of
  that closure: every recomputation of the memo makes a new variable, initially
  \<^verbatim>\<open>null\<close>, while the functions of an earlier closure keep the old one. \<open>memo\<close> numbers the
  closure whose handlers are in use and \<open>timeouts\<close> gives the variable of each closure.
  \<open>jsQueue\<close> holds the calls handed to \<^verbatim>\<open>runOnJS\<close> that the JS thread has not run yet,
  \<open>timers\<close> the timers of the host that are still to fire (handle, item, delay) and
  \<open>nextTimer\<close> the next fresh handle. \<open>springs\<close> holds the spring animations started on the
  axes of the live offsets and not cancelled by the handlers since; how they progress is the
  business of the animation primitive, which reports back through the settle callback.
  \<open>calls\<close> is the trace of the consumer callbacks invoked so far.
\<close>

text \<open>
  A call handed to \<^verbatim>\<open>runOnJS\<close>: \<^verbatim>\<open>setActiveId(id, delay)\<close> or \<^verbatim>\<open>clearActiveIdTimeout()\<close>,
  each of the closure with the given number.
\<close>

datatype JsCall =
    CallSetActiveId nat UniqueIdentifier real
  | CallClearActiveIdTimeout nat

record DndState =
  draggableLayouts :: "(UniqueIdentifier \<times> Rectangle) list"
  droppableLayouts :: "(UniqueIdentifier \<times> Rectangle) list"
  draggableOptions :: "UniqueIdentifier \<rightharpoonup> DraggableItemOptions"
  droppableOptions :: "UniqueIdentifier \<rightharpoonup> ItemOptions"
  draggableOffsets :: "UniqueIdentifier \<rightharpoonup> Point"
  draggableRestingOffsets :: "UniqueIdentifier \<rightharpoonup> Point"
  draggableStates :: "UniqueIdentifier \<rightharpoonup> DraggableState"
  draggablePendingId :: "UniqueIdentifier option"
  draggableActiveId :: "UniqueIdentifier option"
  droppableActiveId :: "UniqueIdentifier option"
  draggableActiveLayout :: "Rectangle option"
  draggableInitialOffset :: Point
  draggableContentOffset :: Point
  panGestureState :: GestureState
  memo :: nat
  timeouts :: "nat \<Rightarrow> nat option"
  jsQueue :: "JsCall list"
  timers :: "(nat \<times> UniqueIdentifier \<times> real) list"
  nextTimer :: nat
  springs :: "(UniqueIdentifier \<times> Axis) \<rightharpoonup> Spring"
  calls :: "Callback list"

text \<open>
  A handler either returns the new state or throws; a throw leaves the writes made before
  it in place, so the error carries the state it was raised in.
\<close>

type_synonym outcome = "(error \<times> DndState) + DndState"

section \<open>Geometry utilities\<close>

text \<open>
  Modelled from the spec: \<^verbatim>\<open>includesPoint\<close> of \<^verbatim>\<open>./utils\<close>, which is not among the
  sources. True iff the point lies within the closed bounds of the rectangle.
\<close>

definition includesPoint :: "Rectangle \<Rightarrow> Point \<Rightarrow> bool" where
  "includesPoint layout p \<longleftrightarrow>
     rx layout \<le> px p \<and> px p \<le> rx layout + rwidth layout \<and>
     ry layout \<le> py p \<and> py p \<le> ry layout + rheight layout"

text \<open>
  Modelled from the spec: \<^verbatim>\<open>overlapsRectangle\<close> of \<^verbatim>\<open>./utils\<close>, which is not among the
  sources. True iff the two axis-aligned rectangles intersect; rectangles that only touch
  at an edge do not overlap.
\<close>

definition overlapsRectangle :: "Rectangle \<Rightarrow> Rectangle \<Rightarrow> bool" where
  "overlapsRectangle a b \<longleftrightarrow>
     rx a < rx b + rwidth b \<and> rx b < rx a + rwidth a \<and>
     ry a < ry b + rheight b \<and> ry b < ry a + rheight a"

text \<open>
  Modelled from the spec: \<^verbatim>\<open>applyOffset\<close> of \<^verbatim>\<open>./utils\<close>, which is not among the
  sources. Translates the origin of the rectangle by the offset; the size is unchanged.
\<close>

definition applyOffset :: "Rectangle \<Rightarrow> Point \<Rightarrow> Rectangle" where
  "applyOffset layout offset =
     \<lparr>rx = rx layout + px offset, ry = ry layout + py offset,
      rwidth = rwidth layout, rheight = rheight layout\<rparr>"

text \<open>
  Modelled from the spec: \<^verbatim>\<open>getDistance\<close> of \<^verbatim>\<open>./utils\<close>, which is not among the
  sources. The Euclidean norm.
\<close>

definition getDistance :: "real \<Rightarrow> real \<Rightarrow> real" where
  "getDistance dx dy = sqrt (\<bar>dx\<bar> ^ 2 + \<bar>dy\<bar> ^ 2)"

section \<open>Hit testing\<close>

text \<open>
  The loop of \<^verbatim>\<open>findActiveLayoutId\<close> over \<^verbatim>\<open>Object.entries(layouts)\<close>. The source reads
  \<^verbatim>\<open>offsets[id]\<close> (no failure yet when the entry is missing), then
  \<^verbatim>\<open>options[id].disabled\<close> (a TypeError when the entry is missing), and dereferences the
  offset only for an item that is not disabled.
\<close>

fun scanDraggables ::
  "DndState \<Rightarrow> Point \<Rightarrow> (UniqueIdentifier \<times> Rectangle) list \<Rightarrow> error + UniqueIdentifier option"
where
  "scanDraggables s p [] = Inr None"
| "scanDraggables s p ((i, layout) # rest) =
     (case draggableOptions s i of
        None \<Rightarrow> Inl TypeError
      | Some opts \<Rightarrow>
          if disabled opts then scanDraggables s p rest
          else (case draggableOffsets s i of
                  None \<Rightarrow> Inl TypeError
                | Some offset \<Rightarrow>
                    if includesPoint layout
                         \<lparr>px = px p - px offset + px (draggableContentOffset s),
                          py = py p - py offset + py (draggableContentOffset s)\<rparr>
                    then Inr (Some i)
                    else scanDraggables s p rest))"

definition findActiveLayoutId :: "DndState \<Rightarrow> Point \<Rightarrow> error + UniqueIdentifier option" where
  "findActiveLayoutId s point = scanDraggables s point (draggableLayouts s)"

text \<open>The loop of \<^verbatim>\<open>findDroppableLayoutId\<close>; \<^verbatim>\<open>options[id].disabled\<close> is read unguarded.\<close>

fun scanDroppables ::
  "DndState \<Rightarrow> Rectangle \<Rightarrow> (UniqueIdentifier \<times> Rectangle) list \<Rightarrow> error + UniqueIdentifier option"
where
  "scanDroppables s activeLayout [] = Inr None"
| "scanDroppables s activeLayout ((i, layout) # rest) =
     (case droppableOptions s i of
        None \<Rightarrow> Inl TypeError
      | Some opts \<Rightarrow>
          if \<not> disabled opts \<and> overlapsRectangle activeLayout layout then Inr (Some i)
          else scanDroppables s activeLayout rest)"

definition findDroppableLayoutId :: "DndState \<Rightarrow> Rectangle \<Rightarrow> error + UniqueIdentifier option" where
  "findDroppableLayoutId s activeLayout = scanDroppables s activeLayout (droppableLayouts s)"

section \<open>Delayed activation\<close>

text \<open>The variable \<^verbatim>\<open>timeout\<close> as the handlers in use see it.\<close>

definition timeout :: "DndState \<Rightarrow> nat option" where
  "timeout s = timeouts s (memo s)"

text \<open>
  \<^verbatim>\<open>runOnJS(f)(...)\<close> in a handler: the call is queued for the JS thread and the handler
  goes on at once.
\<close>

definition runOnJS :: "JsCall \<Rightarrow> DndState \<Rightarrow> DndState" where
  "runOnJS c s = s\<lparr>jsQueue := jsQueue s @ [c]\<rparr>"

text \<open>
  \<^verbatim>\<open>clearActiveIdTimeout\<close> of the closure \<open>m\<close>: clears the timer whose handle the variable
  \<^verbatim>\<open>timeout\<close> of that closure holds; clearing a timer that has fired or was cleared before
  changes nothing. The variable keeps the handle. The test \<^verbatim>\<open>if (timeout)\<close> is one of
  truthiness, which the handle 0 fails as \<^verbatim>\<open>null\<close> does.
\<close>

definition clearActiveIdTimeout :: "nat \<Rightarrow> DndState \<Rightarrow> DndState" where
  "clearActiveIdTimeout m s =
     (case timeouts s m of
        None \<Rightarrow> s
      | Some h \<Rightarrow>
          if h = 0 then s else s\<lparr>timers := filter (\<lambda>t. fst t \<noteq> h) (timers s)\<rparr>)"

text \<open>
  \<^verbatim>\<open>setActiveId\<close> of the closure \<open>m\<close>: schedules the deferred activation and stores its
  handle in the variable \<^verbatim>\<open>timeout\<close> of that closure. A timer set before is not cleared.
\<close>

definition setActiveId :: "nat \<Rightarrow> UniqueIdentifier \<Rightarrow> real \<Rightarrow> DndState \<Rightarrow> DndState" where
  "setActiveId m i delay s =
     s\<lparr>timers := timers s @ [(nextTimer s, i, delay)],
       timeouts := (timeouts s)(m := Some (nextTimer s)),
       nextTimer := Suc (nextTimer s)\<rparr>"

text \<open>The JS thread runs the call at the head of its queue, if there is one.\<close>

fun callJs :: "JsCall \<Rightarrow> DndState \<Rightarrow> DndState" where
  "callJs (CallSetActiveId m i delay) s = setActiveId m i delay s"
| "callJs (CallClearActiveIdTimeout m) s = clearActiveIdTimeout m s"

definition onJsRun :: "DndState \<Rightarrow> outcome" where
  "onJsRun s =
     (case jsQueue s of
        [] \<Rightarrow> Inr s
      | c # cs \<Rightarrow> Inr (callJs c (s\<lparr>jsQueue := cs\<rparr>)))"

text \<open>
  The memo is recomputed, as it is when the prop \<^verbatim>\<open>disabled\<close> changes (line 401): from now
  on the handlers of a new closure are in use, whose \<^verbatim>\<open>timeout\<close> is \<^verbatim>\<open>null\<close>. Timers and
  queued calls of the earlier closure stay as they are.
\<close>

definition onRememo :: "DndState \<Rightarrow> outcome" where
  "onRememo s =
     Inr (s\<lparr>memo := Suc (memo s), timeouts := (timeouts s)(Suc (memo s) := None)\<rparr>)"

text \<open>
  The timer scheduled by \<^verbatim>\<open>setActiveId\<close> with handle \<open>h\<close> fires. A handle that is not
  waiting (cleared, or fired before) runs nothing. On the JS thread the timer only hands its
  worklet to the UI thread through \<^verbatim>\<open>runOnUI\<close>, and a worklet handed over can no longer be
  stopped; so the firing and the worklet are one event, placed where the worklet runs. The
  worklet sets the active item and its state and checks nothing first.
\<close>

definition onTimeout :: "nat \<Rightarrow> DndState \<Rightarrow> outcome" where
  "onTimeout h s =
     (case find (\<lambda>t. fst t = h) (timers s) of
        None \<Rightarrow> Inr s
      | Some (_, i, _) \<Rightarrow>
          (let s1 = s\<lparr>timers := filter (\<lambda>t. fst t \<noteq> h) (timers s),
                      draggableActiveId := Some i\<rparr>
           in case draggableStates s1 i of
                None \<Rightarrow> Inl (TypeError, s1)
              | Some _ \<Rightarrow> Inr (s1\<lparr>draggableStates := (draggableStates s1)(i \<mapsto> dragging)\<rparr>)))"

section \<open>Animation primitives\<close>

text \<open>\<^verbatim>\<open>cancelAnimation\<close> on one axis of the live offset of an item.\<close>

definition cancelAnimation :: "UniqueIdentifier \<Rightarrow> Axis \<Rightarrow> DndState \<Rightarrow> DndState" where
  "cancelAnimation i ax s = s\<lparr>springs := (springs s)((i, ax) := None)\<rparr>"

text \<open>
  Modelled from the spec: \<^verbatim>\<open>animatePointWithSpring\<close> of \<^verbatim>\<open>./utils\<close>, which is not among
  the sources. Starts one spring per axis of the live offset of the item, each with its own
  target and initial velocity; the settle callback is the function \<open>onSettle\<close> below.
  The live offset must exist.
\<close>

definition animatePointWithSpring ::
  "UniqueIdentifier \<Rightarrow> real \<times> real \<Rightarrow> real \<times> real \<Rightarrow> DndState \<Rightarrow> outcome" where
  "animatePointWithSpring i target vel s =
     (case draggableOffsets s i of
        None \<Rightarrow> Inl (TypeError, s)
      | Some _ \<Rightarrow>
          Inr (s\<lparr>springs := (springs s)
                 ((i, AxisX) \<mapsto> \<lparr>toValue = fst target, velocity = fst vel\<rparr>,
                  (i, AxisY) \<mapsto> \<lparr>toValue = snd target, velocity = snd vel\<rparr>)\<rparr>))"

text \<open>
  The settle callback passed to \<^verbatim>\<open>animatePointWithSpring\<close> in \<^verbatim>\<open>onFinalize\<close>, for the item
  \<open>activeId\<close> the closure captured. The read of \<^verbatim>\<open>states[activeId].value\<close> in the
  condition and the write after it both throw when the item has no state entry, and nothing
  is written before either.
\<close>

definition onSettle :: "UniqueIdentifier \<Rightarrow> DndState \<Rightarrow> outcome" where
  "onSettle activeId s =
     (case draggableStates s activeId of
        None \<Rightarrow> Inl (TypeError, s)
      | Some st \<Rightarrow>
          if panGestureState s \<noteq> END \<and> panGestureState s \<noteq> FAILED \<and> st \<noteq> acting
          then Inr s
          else Inr (s\<lparr>draggableStates := (draggableStates s)(activeId \<mapsto> resting)\<rparr>))"

section \<open>The gesture handlers\<close>

text \<open>
  The two branches of \<^verbatim>\<open>onBegin\<close> on the prior state of the selected item: an item that
  is \<open>dragging\<close> or \<open>acting\<close> has the animation of both axes of its live offset cancelled;
  any other item has its live offset recorded as its resting offset.
\<close>

definition regrabOrRest ::
  "UniqueIdentifier \<Rightarrow> DraggableState \<Rightarrow> Point \<Rightarrow> DndState \<Rightarrow> outcome" where
  "regrabOrRest activeId activeState activeOffset s =
     (if activeState = dragging \<or> activeState = acting
      then Inr (cancelAnimation activeId AxisY (cancelAnimation activeId AxisX s))
      else (case draggableRestingOffsets s activeId of
              None \<Rightarrow> Inl (TypeError, s)
            | Some _ \<Rightarrow>
                Inr (s\<lparr>draggableRestingOffsets :=
                         (draggableRestingOffsets s)(activeId \<mapsto> activeOffset)\<rparr>)))"

text \<open>
  The activation step of \<^verbatim>\<open>onBegin\<close>: with a positive delay the item becomes pending and the
  call of \<^verbatim>\<open>setActiveId\<close> is handed to the JS thread; otherwise it becomes the active item at once and the
  active layout is its layout translated by its live offset.
\<close>

definition activate ::
  "UniqueIdentifier \<Rightarrow> Rectangle \<Rightarrow> Point \<Rightarrow> DraggableItemOptions \<Rightarrow> DndState \<Rightarrow> DndState" where
  "activate activeId activeLayout activeOffset opts s =
     (if activationDelay opts > 0
      then runOnJS (CallSetActiveId (memo s) activeId (activationDelay opts))
             (s\<lparr>draggablePendingId := Some activeId,
                draggableStates := (draggableStates s)(activeId \<mapsto> pending)\<rparr>)
      else s\<lparr>draggableActiveId := Some activeId,
             draggableActiveLayout := Some (applyOffset activeLayout activeOffset),
             draggableStates := (draggableStates s)(activeId \<mapsto> dragging)\<rparr>)"

text \<open>
  What \<^verbatim>\<open>onBegin\<close> does once the hit test has selected \<open>activeId\<close>. The callback receives
  the local \<^verbatim>\<open>activeLayout\<close>, which is the registered layout \<^verbatim>\<open>layouts[activeId].value\<close>.
\<close>

definition beginWith :: "DndProviderProps \<Rightarrow> UniqueIdentifier \<Rightarrow> DndState \<Rightarrow> outcome" where
  "beginWith props activeId s1 =
     (case map_of (draggableLayouts s1) activeId of
        None \<Rightarrow> Inl (TypeError, s1)
      | Some activeLayout \<Rightarrow>
     (case draggableStates s1 activeId of
        None \<Rightarrow> Inl (TypeError, s1)
      | Some activeState \<Rightarrow>
     (case draggableOffsets s1 activeId of
        None \<Rightarrow> Inl (TypeError, s1)
      | Some activeOffset \<Rightarrow>
     (case regrabOrRest activeId activeState activeOffset
             (s1\<lparr>draggableInitialOffset := activeOffset\<rparr>) of
        Inl e \<Rightarrow> Inl e
      | Inr s3 \<Rightarrow>
     (case draggableOptions s3 activeId of
        None \<Rightarrow> Inl (TypeError, s3)
      | Some opts \<Rightarrow>
          (let s4 = activate activeId activeLayout activeOffset opts s3
           in Inr (if has_onBegin props
                   then s4\<lparr>calls := calls s4 @ [OnBegin activeId activeLayout]\<rparr>
                   else s4)))))))"

definition onBegin :: "DndProviderProps \<Rightarrow> GestureState \<Rightarrow> real \<Rightarrow> real \<Rightarrow> DndState \<Rightarrow> outcome" where
  "onBegin props state x y s =
     (if provider_disabled props then Inr s
      else (let s1 = s\<lparr>panGestureState := state\<rparr>
            in case findActiveLayoutId s1 \<lparr>px = x, py = y\<rparr> of
                 Inl e \<Rightarrow> Inl (e, s1)
               | Inr None \<Rightarrow> Inr s1
               | Inr (Some activeId) \<Rightarrow> beginWith props activeId s1))"

text \<open>The branch of \<^verbatim>\<open>onUpdate\<close> taken when no item is active.\<close>

definition updatePending :: "real \<Rightarrow> real \<Rightarrow> DndState \<Rightarrow> outcome" where
  "updatePending translationX translationY s1 =
     (case draggablePendingId s1 of
        None \<Rightarrow> Inr s1
      | Some pendingId \<Rightarrow>
          (case draggableOptions s1 pendingId of
             None \<Rightarrow> Inl (TypeError, s1)
           | Some opts \<Rightarrow>
               if getDistance translationX translationY > activationTolerance opts
               then Inr ((runOnJS (CallClearActiveIdTimeout (memo s1)) s1)
                           \<lparr>draggablePendingId := None\<rparr>)
               else Inr s1))"

text \<open>The branch of \<^verbatim>\<open>onUpdate\<close> that pans the active item.\<close>

definition updateActive ::
  "DndProviderProps \<Rightarrow> UniqueIdentifier \<Rightarrow> real \<Rightarrow> real \<Rightarrow> DndState \<Rightarrow> outcome" where
  "updateActive props activeId translationX translationY s1 =
     (case draggableOffsets s1 activeId of
        None \<Rightarrow> Inl (TypeError, s1)
      | Some _ \<Rightarrow>
          (let activeOffset = \<lparr>px = px (draggableInitialOffset s1) + translationX,
                               py = py (draggableInitialOffset s1) + translationY\<rparr>;
               s2 = s1\<lparr>draggableOffsets := (draggableOffsets s1)(activeId \<mapsto> activeOffset)\<rparr>
           in case map_of (draggableLayouts s2) activeId of
                None \<Rightarrow> Inl (TypeError, s2)
              | Some activeLayout \<Rightarrow>
                  (let s3 = s2\<lparr>draggableActiveLayout :=
                                  Some (applyOffset activeLayout activeOffset)\<rparr>
                   in case findDroppableLayoutId s3 (applyOffset activeLayout activeOffset) of
                        Inl e \<Rightarrow> Inl (e, s3)
                      | Inr d \<Rightarrow>
                          (let s4 = s3\<lparr>droppableActiveId := d\<rparr>
                           in Inr (if has_onUpdate props
                                   then s4\<lparr>calls := calls s4 @
                                          [OnUpdate activeId (applyOffset activeLayout activeOffset) d]\<rparr>
                                   else s4)))))"

definition onUpdate :: "DndProviderProps \<Rightarrow> GestureState \<Rightarrow> real \<Rightarrow> real \<Rightarrow> DndState \<Rightarrow> outcome" where
  "onUpdate props state translationX translationY s =
     (let s1 = s\<lparr>panGestureState := state\<rparr>
      in case draggableActiveId s1 of
           None \<Rightarrow> updatePending translationX translationY s1
         | Some activeId \<Rightarrow> updateActive props activeId translationX translationY s1)"

text \<open>The \<^verbatim>\<open>onFinalize\<close> consumer callback, given the layout at the current live offset.\<close>

definition notifyFinalize :: "DndProviderProps \<Rightarrow> UniqueIdentifier \<Rightarrow> DndState \<Rightarrow> outcome" where
  "notifyFinalize props activeId s =
     (if has_onFinalize props
      then (case map_of (draggableLayouts s) activeId of
              None \<Rightarrow> Inl (TypeError, s)
            | Some activeLayout \<Rightarrow>
                (case draggableOffsets s activeId of
                   None \<Rightarrow> Inl (TypeError, s)
                 | Some activeOffset \<Rightarrow>
                     Inr (s\<lparr>calls := calls s @
                            [OnFinalize activeId (applyOffset activeLayout activeOffset)]\<rparr>)))
      else Inr s)"

text \<open>The \<^verbatim>\<open>onDragEnd\<close> consumer callback, skipped for a failed gesture.\<close>

definition notifyDragEnd ::
  "DndProviderProps \<Rightarrow> GestureState \<Rightarrow> UniqueIdentifier \<Rightarrow> DndState \<Rightarrow> DndState" where
  "notifyDragEnd props state activeId s =
     (if state \<noteq> FAILED \<and> has_onDragEnd props
      then s\<lparr>calls := calls s @
              [OnDragEnd (draggableOptions s activeId)
                 (case droppableActiveId s of
                    None \<Rightarrow> None
                  | Some dropActiveId \<Rightarrow> droppableOptions s dropActiveId)]\<rparr>
      else s)"

text \<open>The end of \<^verbatim>\<open>onFinalize\<close>: the item starts acting and springs back to its resting offset.\<close>

definition moveBack :: "UniqueIdentifier \<Rightarrow> real \<Rightarrow> real \<Rightarrow> DndState \<Rightarrow> outcome" where
  "moveBack activeId velocityX velocityY s5 =
     (case draggableStates s5 activeId of
        None \<Rightarrow> Inl (TypeError, s5)
      | Some _ \<Rightarrow>
          (let s6 = s5\<lparr>draggableStates := (draggableStates s5)(activeId \<mapsto> acting)\<rparr>
           in case draggableRestingOffsets s6 activeId of
                None \<Rightarrow> Inl (TypeError, s6)
              | Some restingOffset \<Rightarrow>
                  animatePointWithSpring activeId (px restingOffset, py restingOffset)
                    (velocityX, velocityY) s6))"

definition onFinalize :: "DndProviderProps \<Rightarrow> GestureState \<Rightarrow> real \<Rightarrow> real \<Rightarrow> DndState \<Rightarrow> outcome" where
  "onFinalize props state velocityX velocityY s =
     (let s1 = s\<lparr>panGestureState := state\<rparr>
      in case draggableActiveId s1 of
           None \<Rightarrow>
             (case draggablePendingId s1 of
                None \<Rightarrow> Inr s1
              | Some _ \<Rightarrow>
                  Inr ((runOnJS (CallClearActiveIdTimeout (memo s1)) s1)
                         \<lparr>draggablePendingId := None\<rparr>))
         | Some activeId \<Rightarrow>
             (case notifyFinalize props activeId (s1\<lparr>draggableActiveId := None\<rparr>) of
                Inl e \<Rightarrow> Inl e
              | Inr s3 \<Rightarrow>
                  moveBack activeId velocityX velocityY
                    ((notifyDragEnd props state activeId s3)\<lparr>droppableActiveId := None\<rparr>)))"

section \<open>Events and runs\<close>

text \<open>
  Everything that can happen to the provider: the three callbacks of the gesture, a timer
  of a deferred activation firing, the settle callback of a return animation, the JS thread
  running a queued call, and a recomputation of the memo.
\<close>

datatype Event =
    Begin GestureState real real
  | Update GestureState real real
  | Finalize GestureState real real
  | TimerFired nat
  | Settled UniqueIdentifier
  | JsRun
  | Rememo

fun step :: "DndProviderProps \<Rightarrow> Event \<Rightarrow> DndState \<Rightarrow> outcome" where
  "step props (Begin state x y) s = onBegin props state x y s"
| "step props (Update state tx ty) s = onUpdate props state tx ty s"
| "step props (Finalize state vx vy) s = onFinalize props state vx vy s"
| "step props (TimerFired h) s = onTimeout h s"
| "step props (Settled i) s = onSettle i s"
| "step props JsRun s = onJsRun s"
| "step props Rememo s = onRememo s"

text \<open>A sequence of events; a throw ends the run.\<close>

fun run :: "DndProviderProps \<Rightarrow> Event list \<Rightarrow> DndState \<Rightarrow> outcome" where
  "run props [] s = Inr s"
| "run props (e # es) s =
     (case step props e s of
        Inl err \<Rightarrow> Inl err
      | Inr s' \<Rightarrow> run props es s')"

text \<open>The state a handler leaves behind, whether it returned or threw.\<close>

fun stateAfter :: "outcome \<Rightarrow> DndState" where
  "stateAfter (Inl (e, s)) = s"
| "stateAfter (Inr s) = s"

section \<open>Notions used by the specification\<close>

text \<open>
  An item is registered when the registration collaborators have given it an entry in every
  draggable registry; the registries are consistent when every key of a layout registry has
  its entries in the other registries of its category.
\<close>

definition registered :: "DndState \<Rightarrow> UniqueIdentifier \<Rightarrow> bool" where
  "registered s i \<longleftrightarrow>
     draggableOptions s i \<noteq> None \<and> draggableOffsets s i \<noteq> None \<and>
     draggableRestingOffsets s i \<noteq> None \<and> draggableStates s i \<noteq> None"

definition consistent :: "DndState \<Rightarrow> bool" where
  "consistent s \<longleftrightarrow>
     list_all (\<lambda>e. registered s (fst e)) (draggableLayouts s) \<and>
     list_all (\<lambda>e. droppableOptions s (fst e) \<noteq> None) (droppableLayouts s)"

text \<open>
  The hit test in the words of the specification: an entry is hit when its item is not
  disabled and its layout contains the pointer position corrected by the content offset and
  by the live offset of the item; the selected item is the first entry hit.
\<close>

definition hit :: "DndState \<Rightarrow> Point \<Rightarrow> UniqueIdentifier \<times> Rectangle \<Rightarrow> bool" where
  "hit s p e \<longleftrightarrow>
     (case draggableOptions s (fst e) of
        None \<Rightarrow> False
      | Some opts \<Rightarrow>
          (case draggableOffsets s (fst e) of
             None \<Rightarrow> False
           | Some offset \<Rightarrow>
               \<not> disabled opts \<and>
               includesPoint (snd e)
                 \<lparr>px = px p - px offset + px (draggableContentOffset s),
                  py = py p - py offset + py (draggableContentOffset s)\<rparr>))"

definition firstHit :: "DndState \<Rightarrow> Point \<Rightarrow> UniqueIdentifier option" where
  "firstHit s p = map_option fst (find (hit s p) (draggableLayouts s))"

text \<open>
  Droppable detection in the words of the specification: the first droppable that is not
  disabled and whose layout overlaps the given rectangle.
\<close>

definition overlapped :: "DndState \<Rightarrow> Rectangle \<Rightarrow> UniqueIdentifier \<times> Rectangle \<Rightarrow> bool" where
  "overlapped s r e \<longleftrightarrow>
     (case droppableOptions s (fst e) of
        None \<Rightarrow> False
      | Some opts \<Rightarrow> \<not> disabled opts \<and> overlapsRectangle r (snd e))"

definition firstOverlap :: "DndState \<Rightarrow> Rectangle \<Rightarrow> UniqueIdentifier option" where
  "firstOverlap s r = map_option fst (find (overlapped s r) (droppableLayouts s))"

fun isUpdate :: "Event \<Rightarrow> bool" where
  "isUpdate (Update state tx ty) = True"
| "isUpdate e = False"

text \<open>
  The item \<open>a\<close> is pending: no item is active, \<open>a\<close> is the pending item, and its deferred
  activation, with handle \<open>h\<close>, is the one timer still to fire. The handles the host gives
  out are positive.
\<close>

definition pendingOn :: "DndState \<Rightarrow> UniqueIdentifier \<Rightarrow> nat \<Rightarrow> bool" where
  "pendingOn s a h \<longleftrightarrow>
     draggableActiveId s = None \<and> draggablePendingId s = Some a \<and>
     draggableStates s a = Some pending \<and> timeout s = Some h \<and> 0 < h \<and>
     map fst (timers s) = [h] \<and> map (fst \<circ> snd) (timers s) = [a]"

section \<open>A concrete scene\<close>

text \<open>
  The scene of the specification: the draggable A at (0, 0) and the droppable B at (150, 0),
  both 100 by 100, and a second draggable L below A that activates after a long press.
\<close>

definition square :: "real \<Rightarrow> real \<Rightarrow> Rectangle" where
  "square x y = \<lparr>rx = x, ry = y, rwidth = 100, rheight = 100\<rparr>"

definition origin :: Point where
  "origin = \<lparr>px = 0, py = 0\<rparr>"

definition optionsA :: DraggableItemOptions where
  "optionsA = \<lparr>disabled = False, data = ''a'', activationDelay = 0, activationTolerance = 0\<rparr>"

definition optionsL :: DraggableItemOptions where
  "optionsL = \<lparr>disabled = False, data = ''l'', activationDelay = 500, activationTolerance = 10\<rparr>"

definition optionsB :: ItemOptions where
  "optionsB = \<lparr>disabled = False, data = ''b''\<rparr>"

definition scene :: DndState where
  "scene =
     \<lparr>draggableLayouts = [(''A'', square 0 0), (''L'', square 0 200)],
      droppableLayouts = [(''B'', square 150 0)],
      draggableOptions = [''A'' \<mapsto> optionsA, ''L'' \<mapsto> optionsL],
      droppableOptions = [''B'' \<mapsto> optionsB],
      draggableOffsets = [''A'' \<mapsto> origin, ''L'' \<mapsto> origin],
      draggableRestingOffsets = [''A'' \<mapsto> origin, ''L'' \<mapsto> origin],
      draggableStates = [''A'' \<mapsto> resting, ''L'' \<mapsto> resting],
      draggablePendingId = None,
      draggableActiveId = None,
      droppableActiveId = None,
      draggableActiveLayout = None,
      draggableInitialOffset = origin,
      draggableContentOffset = origin,
      panGestureState = UNDETERMINED,
      memo = 0,
      timeouts = (\<lambda>m. None),
      jsQueue = [],
      timers = [],
      nextTimer = 1,
      springs = Map.empty,
      calls = []\<rparr>"

definition allCallbacks :: DndProviderProps where
  "allCallbacks =
     \<lparr>provider_disabled = False, has_onBegin = True, has_onUpdate = True,
      has_onFinalize = True, has_onDragEnd = True\<rparr>"

text \<open>The scene after a Begin at (50, 50), which grabs A.\<close>

definition grabbed :: DndState where
  "grabbed = stateAfter (onBegin allCallbacks BEGAN 50 50 scene)"

text \<open>
  The scene after a Begin at (50, 250), which makes L the pending item, and after the JS
  thread has run the queued call that sets the timer.
\<close>

definition pressed :: DndState where
  "pressed = stateAfter (run allCallbacks [Begin BEGAN 50 250, JsRun] scene)"

text \<open>The props after the consumer has disabled the provider.\<close>

definition nowDisabled :: DndProviderProps where
  "nowDisabled = allCallbacks\<lparr>provider_disabled := True\<rparr>"

text \<open>A dragged 10 to the right and 20 down, then released with velocity (3, 4).\<close>

definition released :: DndState where
  "released = stateAfter (run allCallbacks [Update ACTIVE 10 20, Finalize END 3 4] grabbed)"

text \<open>The same after the settle callback of the return animation of A has run.\<close>

definition settled :: DndState where
  "settled = stateAfter (onSettle ''A'' released)"

text \<open>A dragged 100 to the right, where it overlaps B.\<close>

definition dropping :: DndState where
  "dropping = stateAfter (onUpdate allCallbacks ACTIVE 100 0 grabbed)"



section \<open>Hit testing computes the first hit\<close>

lemma scan_pgs [simp]: "scanDraggables (s\<lparr>panGestureState := st\<rparr>) p ls = scanDraggables s p ls"
  by (induction ls) (auto split: option.splits)

lemma scanDraggables_firstHit:
  "list_all (\<lambda>e. registered s (fst e)) ls \<Longrightarrow>
   scanDraggables s p ls = Inr (map_option fst (find (hit s p) ls))"
  by (induction ls) (auto simp: registered_def hit_def split: option.splits)

lemma findActiveLayoutId_firstHit:
  "consistent s \<Longrightarrow> findActiveLayoutId s p = Inr (firstHit s p)"
  by (simp add: findActiveLayoutId_def firstHit_def consistent_def scanDraggables_firstHit)

lemma hit_pgs [simp]: "hit (s\<lparr>panGestureState := st\<rparr>) p = hit s p"
  by (rule ext) (simp add: hit_def split: option.splits)

lemma firstHit_pgs [simp]: "firstHit (s\<lparr>panGestureState := st\<rparr>) p = firstHit s p"
  by (simp add: firstHit_def)

lemma consistent_pgs [simp]: "consistent (s\<lparr>panGestureState := st\<rparr>) = consistent s"
  by (simp add: consistent_def registered_def)

lemma firstHit_SomeD:
  assumes "consistent s" and "firstHit s p = Some a"
  shows "registered s a" and "\<exists>l. map_of (draggableLayouts s) a = Some l"
    and "\<exists>opts. draggableOptions s a = Some opts \<and> \<not> disabled opts"
proof -
  from assms(2) obtain l where f: "find (hit s p) (draggableLayouts s) = Some (a, l)"
    by (auto simp: firstHit_def)
  then have mem: "(a, l) \<in> set (draggableLayouts s)" and h: "hit s p (a, l)"
    by (auto simp: find_Some_iff in_set_conv_nth)
  from mem assms(1) show "registered s a"
    by (auto simp: consistent_def list_all_iff)
  from mem have "a \<in> fst ` set (draggableLayouts s)" by force
  then show "\<exists>l. map_of (draggableLayouts s) a = Some l"
    by (metis map_of_eq_None_iff not_Some_eq)
  from h show "\<exists>opts. draggableOptions s a = Some opts \<and> \<not> disabled opts"
    by (auto simp: hit_def split: option.splits)
qed

lemma beginWith_returns:
  assumes "registered s a" and "map_of (draggableLayouts s) a = Some l"
  shows "\<exists>s'. beginWith props a s = Inr s'"
  using assms
  by (auto simp: beginWith_def registered_def regrabOrRest_def cancelAnimation_def Let_def
           split: option.splits sum.splits)


lemma beginWith_effect:
  assumes "map_of (draggableLayouts s) a = Some l"
    and "draggableStates s a = Some st0"
    and "draggableOffsets s a = Some off"
    and "draggableRestingOffsets s a \<noteq> None"
    and "draggableOptions s a = Some opts"
  shows "\<exists>s'. beginWith props a s = Inr s' \<and>
     draggableInitialOffset s' = off \<and>
     draggableRestingOffsets s' =
       (if st0 = dragging \<or> st0 = acting then draggableRestingOffsets s
        else (draggableRestingOffsets s)(a \<mapsto> off)) \<and>
     springs s' =
       (if st0 = dragging \<or> st0 = acting
        then (springs s)((a, AxisX) := None, (a, AxisY) := None) else springs s) \<and>
     draggableStates s' =
       (draggableStates s)(a \<mapsto> (if activationDelay opts > 0 then pending else dragging)) \<and>
     draggablePendingId s' =
       (if activationDelay opts > 0 then Some a else draggablePendingId s) \<and>
     draggableActiveId s' =
       (if activationDelay opts > 0 then draggableActiveId s else Some a) \<and>
     draggableActiveLayout s' =
       (if activationDelay opts > 0 then draggableActiveLayout s else Some (applyOffset l off)) \<and>
     jsQueue s' =
       (if activationDelay opts > 0
        then jsQueue s @ [CallSetActiveId (memo s) a (activationDelay opts)] else jsQueue s) \<and>
     timers s' = timers s \<and> timeouts s' = timeouts s \<and> memo s' = memo s \<and>
     calls s' = calls s @ (if has_onBegin props then [OnBegin a l] else []) \<and>
     draggableOffsets s' = draggableOffsets s \<and>
     draggableOptions s' = draggableOptions s \<and>
     panGestureState s' = panGestureState s"
  using assms
  by (auto simp: beginWith_def regrabOrRest_def cancelAnimation_def activate_def
                 runOnJS_def Let_def)


text \<open>
  Claim C1, as amended. When the provider is not disabled and the registries are consistent,
  the hit test of Begin returns the first entry, in the enumeration order of the draggable
  layouts, whose item is not disabled and whose layout contains the pointer position
  corrected by the content offset and by the live offset of that item. When there is such an
  item it becomes the pending item (positive activation delay) or the active item; when there
  is none, Begin changes nothing but \<open>panGestureState\<close>, which records the state of the event.
\<close>

theorem begin_selects_first_hit:
  assumes "\<not> provider_disabled props" and "consistent s"
  shows "findActiveLayoutId s \<lparr>px = x, py = y\<rparr> = Inr (firstHit s \<lparr>px = x, py = y\<rparr>) \<and>
    (case firstHit s \<lparr>px = x, py = y\<rparr> of
       None \<Rightarrow> onBegin props state x y s = Inr (s\<lparr>panGestureState := state\<rparr>)
     | Some a \<Rightarrow>
         (\<exists>s' opts. onBegin props state x y s = Inr s' \<and> draggableOptions s a = Some opts \<and>
            (if activationDelay opts > 0
             then draggablePendingId s' = Some a \<and> draggableStates s' a = Some pending \<and>
                  draggableActiveId s' = draggableActiveId s
             else draggableActiveId s' = Some a \<and> draggableStates s' a = Some dragging)))"
proof -
  let ?p = "\<lparr>px = x, py = y\<rparr>"
  let ?s1 = "s\<lparr>panGestureState := state\<rparr>"
  have scan: "findActiveLayoutId s ?p = Inr (firstHit s ?p)"
    using assms(2) by (rule findActiveLayoutId_firstHit)
  have scan1: "findActiveLayoutId ?s1 ?p = Inr (firstHit s ?p)"
    using findActiveLayoutId_firstHit [of ?s1 ?p] assms(2) by simp
  show ?thesis
  proof (cases "firstHit s ?p")
    case None
    with scan scan1 assms(1) show ?thesis by (simp add: onBegin_def)
  next
    case (Some a)
    from firstHit_SomeD [OF assms(2) Some] obtain l opts
      where reg: "registered s a" and l: "map_of (draggableLayouts s) a = Some l"
        and opts: "draggableOptions s a = Some opts"
      by blast
    from reg obtain st0 off
      where st0: "draggableStates s a = Some st0" and off: "draggableOffsets s a = Some off"
        and rest: "draggableRestingOffsets s a \<noteq> None"
      by (auto simp: registered_def)
    from beginWith_effect [of ?s1 a l st0 off opts props] l st0 off rest opts
    obtain s' where s': "beginWith props a ?s1 = Inr s'"
      and st: "draggableStates s' =
        (draggableStates s)(a \<mapsto> (if activationDelay opts > 0 then pending else dragging))"
      and pe: "draggablePendingId s' =
        (if activationDelay opts > 0 then Some a else draggablePendingId s)"
      and ac: "draggableActiveId s' =
        (if activationDelay opts > 0 then draggableActiveId s else Some a)"
      by auto
    have "onBegin props state x y s = Inr s'"
      using assms(1) scan1 Some s' by (simp add: onBegin_def)
    with scan Some opts st pe ac show ?thesis by simp
  qed
qed

lemma consistent_scene: "consistent scene"
  by (simp add: consistent_def registered_def scene_def)

lemma firstHit_scene_A: "firstHit scene \<lparr>px = 50, py = 50\<rparr> = Some ''A''"
  by (simp add: firstHit_def hit_def scene_def includesPoint_def square_def optionsA_def
                origin_def)

lemma firstHit_scene_miss: "firstHit scene \<lparr>px = 500, py = 500\<rparr> = None"
  by (simp add: firstHit_def hit_def scene_def includesPoint_def square_def optionsA_def
                optionsL_def origin_def)

theorem begin_selects_first_hit_witness:
  "\<not> provider_disabled allCallbacks \<and> consistent scene \<and>
   findActiveLayoutId scene \<lparr>px = 50, py = 50\<rparr> = Inr (Some ''A'') \<and>
   (\<exists>s'. onBegin allCallbacks BEGAN 50 50 scene = Inr s' \<and>
         draggableActiveId s' = Some ''A'' \<and> draggableStates s' ''A'' = Some dragging) \<and>
   findActiveLayoutId scene \<lparr>px = 500, py = 500\<rparr> = Inr None \<and>
   onBegin allCallbacks BEGAN 500 500 scene = Inr (scene\<lparr>panGestureState := BEGAN\<rparr>)"
proof -
  have p: "\<not> provider_disabled allCallbacks" by (simp add: allCallbacks_def)
  have o: "draggableOptions scene ''A'' = Some optionsA" by (simp add: scene_def)
  have d: "\<not> activationDelay optionsA > 0" by (simp add: optionsA_def)
  from begin_selects_first_hit [OF p consistent_scene, of 50 50 BEGAN]
       begin_selects_first_hit [OF p consistent_scene, of 500 500 BEGAN]
  show ?thesis
    using p consistent_scene o d by (auto simp: firstHit_scene_A firstHit_scene_miss)
qed

text \<open>
  Claim C1 as stated fails where it says that a Begin that hits no item changes no state:
  in the scene, a Begin at (500, 500) hits nothing and still leaves a different state.
\<close>

theorem begin_miss_changes_gesture_state:
  "findActiveLayoutId scene \<lparr>px = 500, py = 500\<rparr> = Inr None \<and>
   onBegin allCallbacks BEGAN 500 500 scene \<noteq> Inr scene"
  by (simp add: onBegin_def findActiveLayoutId_def scene_def allCallbacks_def
                includesPoint_def square_def optionsA_def optionsL_def origin_def)

section \<open>The settle callback\<close>

text \<open>
  Claim C7. When the settle callback fires for an item that has a state entry: if the last
  gesture state seen is neither \<open>END\<close> nor \<open>FAILED\<close> and the state of the item is no longer
  \<open>acting\<close>, the state is returned unchanged; otherwise the only change is that the item
  becomes \<open>resting\<close>.
\<close>

theorem settle_callback:
  assumes "draggableStates s i = Some st"
  shows "onSettle i s =
     Inr (if panGestureState s \<noteq> END \<and> panGestureState s \<noteq> FAILED \<and> st \<noteq> acting then s
          else s\<lparr>draggableStates := (draggableStates s)(i \<mapsto> resting)\<rparr>)"
  using assms by (simp add: onSettle_def)

theorem settle_callback_witness:
  "draggableStates scene ''A'' = Some resting \<and>
   onSettle ''A'' scene = Inr scene \<and>
   draggableStates (scene\<lparr>panGestureState := END\<rparr>) ''A'' = Some resting \<and>
   onSettle ''A'' (scene\<lparr>panGestureState := END\<rparr>) =
     Inr (scene\<lparr>panGestureState := END,
                draggableStates := (draggableStates scene)(''A'' \<mapsto> resting)\<rparr>)"
proof -
  have a: "draggableStates scene ''A'' = Some resting" by (simp add: scene_def)
  have b: "draggableStates (scene\<lparr>panGestureState := END\<rparr>) ''A'' = Some resting"
    by (simp add: scene_def)
  have c: "panGestureState scene = UNDETERMINED" by (simp add: scene_def)
  from settle_callback [OF a] settle_callback [OF b] a b c show ?thesis by simp
qed


section \<open>Panning the active item\<close>

lemma scanDroppables_cong:
  "droppableOptions s' = droppableOptions s \<Longrightarrow>
   scanDroppables s' r ls = scanDroppables s r ls"
  by (induction ls) (auto split: option.splits)

lemma scanDroppables_firstOverlap:
  "list_all (\<lambda>e. droppableOptions s (fst e) \<noteq> None) ls \<Longrightarrow>
   scanDroppables s r ls = Inr (map_option fst (find (overlapped s r) ls))"
  by (induction ls) (auto simp: overlapped_def split: option.splits)

lemma overlapped_cong:
  assumes "droppableOptions s' = droppableOptions s"
  shows "overlapped s' r = overlapped s r"
  by (rule ext) (simp only: overlapped_def assms)

lemma firstOverlap_cong:
  "droppableOptions s' = droppableOptions s \<Longrightarrow> droppableLayouts s' = droppableLayouts s \<Longrightarrow>
   firstOverlap s' r = firstOverlap s r"
  using overlapped_cong [of s' s r] by (simp add: firstOverlap_def)

lemma findDroppableLayoutId_firstOverlap:
  "list_all (\<lambda>e. droppableOptions s (fst e) \<noteq> None) (droppableLayouts s) \<Longrightarrow>
   findDroppableLayoutId s r = Inr (firstOverlap s r)"
  by (simp add: findDroppableLayoutId_def firstOverlap_def scanDroppables_firstOverlap)

lemma onUpdate_active_effect:
  assumes "draggableActiveId s = Some a"
    and "draggableOffsets s a \<noteq> None"
    and "map_of (draggableLayouts s) a = Some l"
    and "list_all (\<lambda>e. droppableOptions s (fst e) \<noteq> None) (droppableLayouts s)"
    and "off = \<lparr>px = px (draggableInitialOffset s) + tx, py = py (draggableInitialOffset s) + ty\<rparr>"
  shows "\<exists>s'. onUpdate props state tx ty s = Inr s' \<and>
     draggableOffsets s' = (draggableOffsets s)(a \<mapsto> off) \<and>
     draggableActiveLayout s' = Some (applyOffset l off) \<and>
     droppableActiveId s' = firstOverlap s (applyOffset l off) \<and>
     calls s' = calls s @
       (if has_onUpdate props
        then [OnUpdate a (applyOffset l off) (firstOverlap s (applyOffset l off))] else []) \<and>
     draggableActiveId s' = Some a \<and>
     draggableInitialOffset s' = draggableInitialOffset s \<and>
     draggableLayouts s' = draggableLayouts s \<and>
     droppableLayouts s' = droppableLayouts s \<and>
     draggableOptions s' = draggableOptions s \<and>
     droppableOptions s' = droppableOptions s \<and>
     draggableRestingOffsets s' = draggableRestingOffsets s \<and>
     draggableStates s' = draggableStates s"
proof -
  let ?s3 = "s\<lparr>panGestureState := state,
                draggableOffsets := (draggableOffsets s)(a \<mapsto> off),
                draggableActiveLayout := Some (applyOffset l off)\<rparr>"
  have "findDroppableLayoutId ?s3 (applyOffset l off) = Inr (firstOverlap ?s3 (applyOffset l off))"
    using assms(4) by (intro findDroppableLayoutId_firstOverlap) simp
  moreover have "firstOverlap ?s3 (applyOffset l off) = firstOverlap s (applyOffset l off)"
    by (rule firstOverlap_cong) simp_all
  ultimately have "findDroppableLayoutId ?s3 (applyOffset l off) =
      Inr (firstOverlap s (applyOffset l off))"
    by simp
  with assms(1,2,3,5) show ?thesis
    by (auto simp: onUpdate_def updateActive_def Let_def)
qed

lemma consistent_layoutD:
  assumes "consistent s" and "map_of (draggableLayouts s) a = Some l"
  shows "registered s a"
proof -
  from assms(2) have "(a, l) \<in> set (draggableLayouts s)" by (rule map_of_SomeD)
  with assms(1) show ?thesis by (auto simp: consistent_def list_all_iff)
qed

lemma consistent_cong:
  assumes "draggableLayouts s' = draggableLayouts s" and "droppableLayouts s' = droppableLayouts s"
    and "draggableOptions s' = draggableOptions s" and "droppableOptions s' = droppableOptions s"
    and "dom (draggableOffsets s') = dom (draggableOffsets s)"
    and "dom (draggableRestingOffsets s') = dom (draggableRestingOffsets s)"
    and "dom (draggableStates s') = dom (draggableStates s)"
  shows "consistent s' = consistent s"
proof -
  have "registered s' = registered s"
    using assms(3,5,6,7) by (auto simp: registered_def fun_eq_iff dom_def set_eq_iff)
  with assms(1,2,4) show ?thesis by (simp add: consistent_def)
qed

text \<open>
  Claim C3. After an Update with an active item whose layout is registered (the registries
  being consistent), \<open>droppableActiveId\<close> is the first droppable, in the enumeration order of
  the droppable layouts, that is not disabled and whose layout overlaps the layout of the
  active item translated by its live offset; it is \<open>None\<close> when there is no such droppable.
\<close>

theorem update_detects_first_overlap:
  assumes "consistent s" and "draggableActiveId s = Some a"
    and "map_of (draggableLayouts s) a = Some l"
  shows "\<exists>s' off. onUpdate props state tx ty s = Inr s' \<and>
     map_of (draggableLayouts s') a = Some l \<and> draggableOffsets s' a = Some off \<and>
     droppableActiveId s' = firstOverlap s' (applyOffset l off)"
proof -
  let ?off = "\<lparr>px = px (draggableInitialOffset s) + tx, py = py (draggableInitialOffset s) + ty\<rparr>"
  from consistent_layoutD [OF assms(1,3)] have o: "draggableOffsets s a \<noteq> None"
    by (simp add: registered_def)
  from assms(1) have d: "list_all (\<lambda>e. droppableOptions s (fst e) \<noteq> None) (droppableLayouts s)"
    by (simp add: consistent_def)
  from onUpdate_active_effect [OF assms(2) o assms(3) d refl, of props state tx ty]
  obtain s' where s': "onUpdate props state tx ty s = Inr s'"
    and 1: "draggableOffsets s' = (draggableOffsets s)(a \<mapsto> ?off)"
    and 2: "droppableActiveId s' = firstOverlap s (applyOffset l ?off)"
    and 3: "draggableLayouts s' = draggableLayouts s"
    and 4: "droppableLayouts s' = droppableLayouts s"
    and 5: "droppableOptions s' = droppableOptions s"
    by blast
  from 5 4 have "firstOverlap s' (applyOffset l ?off) = firstOverlap s (applyOffset l ?off)"
    by (rule firstOverlap_cong)
  with s' 1 2 3 assms(3) show ?thesis by simp
qed

lemma updates_run:
  assumes "list_all isUpdate es" and "consistent s" and "draggableActiveId s = Some a"
    and "map_of (draggableLayouts s) a = Some l"
  shows "\<exists>s'. run props es s = Inr s' \<and> consistent s' \<and> draggableActiveId s' = Some a \<and>
     map_of (draggableLayouts s') a = Some l \<and>
     draggableInitialOffset s' = draggableInitialOffset s"
  using assms
proof (induction es arbitrary: s)
  case Nil
  then show ?case by simp
next
  case (Cons e es)
  from Cons.prems(1) obtain state tx ty where e: "e = Update state tx ty"
    by (cases e) auto
  from consistent_layoutD [OF Cons.prems(2,4)] have o: "draggableOffsets s a \<noteq> None"
    by (simp add: registered_def)
  from Cons.prems(2)
  have d: "list_all (\<lambda>e. droppableOptions s (fst e) \<noteq> None) (droppableLayouts s)"
    by (simp add: consistent_def)
  from onUpdate_active_effect [OF Cons.prems(3) o Cons.prems(4) d refl, of props state tx ty]
  obtain s1 where s1: "onUpdate props state tx ty s = Inr s1"
    and off: "draggableOffsets s1 = (draggableOffsets s)(a \<mapsto>
        \<lparr>px = px (draggableInitialOffset s) + tx, py = py (draggableInitialOffset s) + ty\<rparr>)"
    and act: "draggableActiveId s1 = Some a"
    and ini: "draggableInitialOffset s1 = draggableInitialOffset s"
    and same: "draggableLayouts s1 = draggableLayouts s" "droppableLayouts s1 = droppableLayouts s"
      "draggableOptions s1 = draggableOptions s" "droppableOptions s1 = droppableOptions s"
      "draggableRestingOffsets s1 = draggableRestingOffsets s"
      "draggableStates s1 = draggableStates s"
    by blast
  from o off have "dom (draggableOffsets s1) = dom (draggableOffsets s)" by auto
  with same have "consistent s1 = consistent s" by (intro consistent_cong) simp_all
  with Cons.prems(2) have c1: "consistent s1" by simp
  from Cons.prems(1) have "list_all isUpdate es" by simp
  from Cons.IH [OF this c1 act] same(1) Cons.prems(4)
  obtain s' where "run props es s1 = Inr s'" "consistent s'" "draggableActiveId s' = Some a"
    "map_of (draggableLayouts s') a = Some l"
    "draggableInitialOffset s' = draggableInitialOffset s1"
    by auto
  with e s1 ini show ?case by simp
qed

lemma run_append:
  "run props (es @ fs) s =
     (case run props es s of Inl err \<Rightarrow> Inl err | Inr s' \<Rightarrow> run props fs s')"
  by (induction es arbitrary: s) (auto split: sum.splits)

text \<open>
  Claim C2. While an item is active, after every Update of any sequence of Update events its
  live offset is the initial offset plus the translation of that Update, on each axis, with
  no clamping or snapping.
\<close>

theorem live_offset_follows_translation:
  assumes "consistent s" and "draggableActiveId s = Some a"
    and "map_of (draggableLayouts s) a = Some l" and "list_all isUpdate es"
  shows "\<exists>s'. run props (es @ [Update state tx ty]) s = Inr s' \<and>
     draggableActiveId s' = Some a \<and>
     draggableOffsets s' a =
       Some \<lparr>px = px (draggableInitialOffset s) + tx, py = py (draggableInitialOffset s) + ty\<rparr>"
proof -
  from updates_run [OF assms(4,1,2,3), of props]
  obtain s1 where r: "run props es s = Inr s1" and c: "consistent s1"
    and act: "draggableActiveId s1 = Some a" and l1: "map_of (draggableLayouts s1) a = Some l"
    and ini: "draggableInitialOffset s1 = draggableInitialOffset s"
    by blast
  from consistent_layoutD [OF c l1] have o: "draggableOffsets s1 a \<noteq> None"
    by (simp add: registered_def)
  from c have d: "list_all (\<lambda>e. droppableOptions s1 (fst e) \<noteq> None) (droppableLayouts s1)"
    by (simp add: consistent_def)
  from onUpdate_active_effect [OF act o l1 d refl, of props state tx ty]
  obtain s' where "onUpdate props state tx ty s1 = Inr s'"
    and "draggableOffsets s' = (draggableOffsets s1)(a \<mapsto>
        \<lparr>px = px (draggableInitialOffset s1) + tx, py = py (draggableInitialOffset s1) + ty\<rparr>)"
    and "draggableActiveId s' = Some a"
    by blast
  with r ini show ?thesis by (simp add: run_append)
qed


section \<open>The scene, evaluated\<close>

lemmas scene_defs =
  scene_def allCallbacks_def square_def origin_def optionsA_def optionsL_def optionsB_def

lemmas handler_defs =
  onBegin_def beginWith_def regrabOrRest_def activate_def runOnJS_def cancelAnimation_def
  findActiveLayoutId_def onUpdate_def updateActive_def updatePending_def
  findDroppableLayoutId_def clearActiveIdTimeout_def setActiveId_def onJsRun_def onRememo_def
  timeout_def onFinalize_def notifyFinalize_def
  notifyDragEnd_def moveBack_def animatePointWithSpring_def onTimeout_def onSettle_def

lemma grabbed_eq:
  "grabbed = scene\<lparr>panGestureState := BEGAN, draggableActiveId := Some ''A'',
                    draggableActiveLayout := Some (square 0 0),
                    draggableStates := [''A'' \<mapsto> dragging, ''L'' \<mapsto> resting],
                    calls := [OnBegin ''A'' (square 0 0)]\<rparr>"
  by (simp add: grabbed_def handler_defs scene_defs includesPoint_def applyOffset_def Let_def
                fun_upd_twist)

lemma pressed_eq:
  "pressed = scene\<lparr>panGestureState := BEGAN, draggablePendingId := Some ''L'',
                    draggableStates := [''A'' \<mapsto> resting, ''L'' \<mapsto> pending],
                    timeouts := (\<lambda>m. None)(0 := Some 1), timers := [(1, ''L'', 500)],
                    nextTimer := 2,
                    calls := [OnBegin ''L'' (square 0 200)]\<rparr>"
  by (simp add: pressed_def handler_defs scene_defs includesPoint_def applyOffset_def Let_def)


lemma consistent_grabbed: "consistent grabbed"
  by (simp add: grabbed_eq consistent_def registered_def scene_def)

lemma active_grabbed: "draggableActiveId grabbed = Some ''A''"
  by (simp add: grabbed_eq)

lemma layout_grabbed: "map_of (draggableLayouts grabbed) ''A'' = Some (square 0 0)"
  by (simp add: grabbed_eq scene_def)

theorem update_detects_first_overlap_witness:
  "consistent grabbed \<and> draggableActiveId grabbed = Some ''A'' \<and>
   map_of (draggableLayouts grabbed) ''A'' = Some (square 0 0) \<and>
   (\<exists>s'. onUpdate allCallbacks ACTIVE 100 0 grabbed = Inr s' \<and>
         draggableOffsets s' ''A'' = Some \<lparr>px = 100, py = 0\<rparr> \<and>
         droppableActiveId s' = Some ''B'') \<and>
   (\<exists>s'. onUpdate allCallbacks ACTIVE 10 20 grabbed = Inr s' \<and>
         draggableOffsets s' ''A'' = Some \<lparr>px = 10, py = 20\<rparr> \<and>
         droppableActiveId s' = None)"
proof -
  show ?thesis
    using update_detects_first_overlap
            [OF consistent_grabbed active_grabbed layout_grabbed, of allCallbacks ACTIVE 100 0]
          update_detects_first_overlap
            [OF consistent_grabbed active_grabbed layout_grabbed, of allCallbacks ACTIVE 10 20]
          consistent_grabbed active_grabbed layout_grabbed
    by (simp add: grabbed_eq handler_defs scene_defs overlapsRectangle_def applyOffset_def
                  Let_def)
qed

theorem live_offset_follows_translation_witness:
  "consistent grabbed \<and> draggableActiveId grabbed = Some ''A'' \<and>
   map_of (draggableLayouts grabbed) ''A'' = Some (square 0 0) \<and>
   list_all isUpdate [Update ACTIVE 10 20, Update ACTIVE 60 (-5)] \<and>
   (\<exists>s'. run allCallbacks [Update ACTIVE 10 20, Update ACTIVE 60 (-5), Update ACTIVE 100 0]
            grabbed = Inr s' \<and>
         draggableActiveId s' = Some ''A'' \<and>
         draggableOffsets s' ''A'' = Some \<lparr>px = 100, py = 0\<rparr>)"
proof -
  have u: "list_all isUpdate [Update ACTIVE 10 20, Update ACTIVE 60 (-5)]" by simp
  have i: "draggableInitialOffset grabbed = \<lparr>px = 0, py = 0\<rparr>"
    by (simp add: grabbed_eq scene_defs)
  from live_offset_follows_translation
         [OF consistent_grabbed active_grabbed layout_grabbed u, of allCallbacks ACTIVE 100 0]
  show ?thesis
    using consistent_grabbed active_grabbed layout_grabbed u i by simp
qed



lemma released_eq:
  "released = scene\<lparr>panGestureState := END,
       draggableOffsets := [''A'' \<mapsto> \<lparr>px = 10, py = 20\<rparr>, ''L'' \<mapsto> origin],
       draggableActiveLayout := Some \<lparr>rx = 10, ry = 20, rwidth = 100, rheight = 100\<rparr>,
       draggableStates := [''A'' \<mapsto> acting, ''L'' \<mapsto> resting],
       springs := [(''A'', AxisX) \<mapsto> \<lparr>toValue = 0, velocity = 3\<rparr>,
                   (''A'', AxisY) \<mapsto> \<lparr>toValue = 0, velocity = 4\<rparr>],
       calls := [OnBegin ''A'' (square 0 0),
                 OnUpdate ''A'' \<lparr>rx = 10, ry = 20, rwidth = 100, rheight = 100\<rparr> None,
                 OnFinalize ''A'' \<lparr>rx = 10, ry = 20, rwidth = 100, rheight = 100\<rparr>,
                 OnDragEnd (Some optionsA) None]\<rparr>"
  by (simp add: released_def grabbed_eq handler_defs scene_defs overlapsRectangle_def
                applyOffset_def Let_def fun_upd_twist)

lemma settled_eq:
  "settled = released\<lparr>draggableStates := [''A'' \<mapsto> resting, ''L'' \<mapsto> resting]\<rparr>"
  by (simp add: settled_def released_eq onSettle_def scene_defs fun_upd_twist)

lemma dropping_eq:
  "dropping = grabbed\<lparr>panGestureState := ACTIVE,
       draggableOffsets := [''A'' \<mapsto> \<lparr>px = 100, py = 0\<rparr>, ''L'' \<mapsto> origin],
       draggableActiveLayout := Some \<lparr>rx = 100, ry = 0, rwidth = 100, rheight = 100\<rparr>,
       droppableActiveId := Some ''B'',
       calls := [OnBegin ''A'' (square 0 0),
                 OnUpdate ''A'' \<lparr>rx = 100, ry = 0, rwidth = 100, rheight = 100\<rparr> (Some ''B'')]\<rparr>"
  by (simp add: dropping_def grabbed_eq handler_defs scene_defs overlapsRectangle_def
                applyOffset_def Let_def fun_upd_twist)


section \<open>Who writes the resting offset\<close>

lemma resting_onUpdate:
  "draggableRestingOffsets (stateAfter (onUpdate props state tx ty s)) = draggableRestingOffsets s"
  by (simp add: onUpdate_def updatePending_def updateActive_def runOnJS_def Let_def
           split: option.splits sum.splits)

lemma resting_onFinalize:
  "draggableRestingOffsets (stateAfter (onFinalize props state vx vy s)) =
   draggableRestingOffsets s"
  by (simp add: onFinalize_def notifyFinalize_def notifyDragEnd_def moveBack_def
                animatePointWithSpring_def runOnJS_def Let_def
           split: option.splits sum.splits)

lemma resting_onTimeout:
  "draggableRestingOffsets (stateAfter (onTimeout h s)) = draggableRestingOffsets s"
  by (simp add: onTimeout_def Let_def split: option.splits prod.splits)

lemma resting_onJsRun:
  "draggableRestingOffsets (stateAfter (onJsRun s)) = draggableRestingOffsets s"
proof (cases "jsQueue s")
  case Nil
  then show ?thesis by (simp add: onJsRun_def)
next
  case (Cons c cs)
  then show ?thesis
    by (cases c) (simp_all add: onJsRun_def setActiveId_def clearActiveIdTimeout_def
                     split: option.splits)
qed

lemma resting_onRememo:
  "draggableRestingOffsets (stateAfter (onRememo s)) = draggableRestingOffsets s"
  by (simp add: onRememo_def)

lemma resting_onSettle:
  "draggableRestingOffsets (stateAfter (onSettle i s)) = draggableRestingOffsets s"
  by (simp add: onSettle_def split: option.splits)

lemma resting_beginWith:
  assumes "draggableRestingOffsets (stateAfter (beginWith props a s)) \<noteq> draggableRestingOffsets s"
  shows "\<exists>st0. draggableStates s a = Some st0 \<and> st0 \<noteq> dragging \<and> st0 \<noteq> acting"
  using assms
  by (auto simp: beginWith_def regrabOrRest_def activate_def runOnJS_def cancelAnimation_def
                 Let_def
           split: option.splits sum.splits if_splits)

lemma resting_onBegin:
  assumes "draggableRestingOffsets (stateAfter (onBegin props state x y s)) \<noteq>
           draggableRestingOffsets s"
  shows "\<exists>a st0. findActiveLayoutId s \<lparr>px = x, py = y\<rparr> = Inr (Some a) \<and>
           draggableStates s a = Some st0 \<and> st0 \<noteq> dragging \<and> st0 \<noteq> acting"
proof -
  let ?s1 = "s\<lparr>panGestureState := state\<rparr>"
  have scan: "findActiveLayoutId ?s1 \<lparr>px = x, py = y\<rparr> = findActiveLayoutId s \<lparr>px = x, py = y\<rparr>"
    by (simp add: findActiveLayoutId_def)
  from assms obtain a where a: "findActiveLayoutId s \<lparr>px = x, py = y\<rparr> = Inr (Some a)"
    and b: "draggableRestingOffsets (stateAfter (beginWith props a ?s1)) \<noteq>
            draggableRestingOffsets ?s1"
    by (auto simp: onBegin_def scan Let_def split: if_splits sum.splits option.splits)
  from resting_beginWith [OF b] a show ?thesis by auto
qed

text \<open>
  Claim C4. A Begin that selects an item whose prior state is \<open>dragging\<close> or \<open>acting\<close>
  cancels the animation on both axes of its live offset and leaves every resting offset as
  it was; for any other prior state it copies the live offset of the item into its resting
  offset. Hence whenever any event changes a resting offset, whether its handler returns or
  throws, the event is a Begin selecting an item whose prior state is neither \<open>dragging\<close>
  nor \<open>acting\<close>.
\<close>

theorem begin_resting_offset:
  "(\<not> provider_disabled props \<and> consistent s \<and> firstHit s \<lparr>px = x, py = y\<rparr> = Some a \<and>
    draggableStates s a = Some st0 \<longrightarrow>
      (\<exists>s'. onBegin props state x y s = Inr s' \<and>
         (if st0 = dragging \<or> st0 = acting
          then springs s' (a, AxisX) = None \<and> springs s' (a, AxisY) = None \<and>
               draggableRestingOffsets s' = draggableRestingOffsets s
          else draggableRestingOffsets s' =
                 (draggableRestingOffsets s)(a := draggableOffsets s a)))) \<and>
   (draggableRestingOffsets (stateAfter (step props e s0)) \<noteq> draggableRestingOffsets s0 \<longrightarrow>
      (\<exists>state x y a st0. e = Begin state x y \<and>
         findActiveLayoutId s0 \<lparr>px = x, py = y\<rparr> = Inr (Some a) \<and>
         draggableStates s0 a = Some st0 \<and> st0 \<noteq> dragging \<and> st0 \<noteq> acting))"
proof (intro conjI impI)
  assume h: "\<not> provider_disabled props \<and> consistent s \<and>
    firstHit s \<lparr>px = x, py = y\<rparr> = Some a \<and> draggableStates s a = Some st0"
  let ?p = "\<lparr>px = x, py = y\<rparr>"
  let ?s1 = "s\<lparr>panGestureState := state\<rparr>"
  from h have c: "consistent s" and f: "firstHit s ?p = Some a"
    and st0: "draggableStates s a = Some st0" and en: "\<not> provider_disabled props"
    by simp_all
  have scan1: "findActiveLayoutId ?s1 ?p = Inr (Some a)"
    using findActiveLayoutId_firstHit [of ?s1 ?p] c f by simp
  from firstHit_SomeD [OF c f] obtain l opts
    where reg: "registered s a" and l: "map_of (draggableLayouts s) a = Some l"
      and opts: "draggableOptions s a = Some opts"
    by blast
  from reg obtain off
    where off: "draggableOffsets s a = Some off" and rest: "draggableRestingOffsets s a \<noteq> None"
    by (auto simp: registered_def)
  from beginWith_effect [of ?s1 a l st0 off opts props] l st0 off rest opts
  obtain s' where s': "beginWith props a ?s1 = Inr s'"
    and r: "draggableRestingOffsets s' =
       (if st0 = dragging \<or> st0 = acting then draggableRestingOffsets s
        else (draggableRestingOffsets s)(a \<mapsto> off))"
    and sp: "springs s' =
       (if st0 = dragging \<or> st0 = acting
        then (springs s)((a, AxisX) := None, (a, AxisY) := None) else springs s)"
    by auto
  have "onBegin props state x y s = Inr s'"
    using en scan1 s' by (simp add: onBegin_def)
  with r sp off
  show "\<exists>s'. onBegin props state x y s = Inr s' \<and>
         (if st0 = dragging \<or> st0 = acting
          then springs s' (a, AxisX) = None \<and> springs s' (a, AxisY) = None \<and>
               draggableRestingOffsets s' = draggableRestingOffsets s
          else draggableRestingOffsets s' =
                 (draggableRestingOffsets s)(a := draggableOffsets s a))"
    by simp
next
  assume ch: "draggableRestingOffsets (stateAfter (step props e s0)) \<noteq>
              draggableRestingOffsets s0"
  show "\<exists>state x y a st0. e = Begin state x y \<and>
         findActiveLayoutId s0 \<lparr>px = x, py = y\<rparr> = Inr (Some a) \<and>
         draggableStates s0 a = Some st0 \<and> st0 \<noteq> dragging \<and> st0 \<noteq> acting"
  proof (cases e)
    case (Begin state x y)
    with ch resting_onBegin [of props state x y s0] show ?thesis by simp
  next
    case (Update state tx ty)
    with ch show ?thesis by (simp add: resting_onUpdate)
  next
    case (Finalize state vx vy)
    with ch show ?thesis by (simp add: resting_onFinalize)
  next
    case (TimerFired h)
    with ch show ?thesis by (simp add: resting_onTimeout)
  next
    case (Settled i)
    with ch show ?thesis by (simp add: resting_onSettle)
  next
    case JsRun
    with ch show ?thesis by (simp add: resting_onJsRun)
  next
    case Rememo
    with ch show ?thesis by (simp add: resting_onRememo)
  qed
qed


lemma enabled_allCallbacks: "\<not> provider_disabled allCallbacks"
  by (simp add: allCallbacks_def)

lemma consistent_released: "consistent released"
  by (simp add: released_eq consistent_def registered_def scene_def)

lemma consistent_settled: "consistent settled"
  by (simp add: settled_eq released_eq consistent_def registered_def scene_def)

lemma firstHit_released: "firstHit released \<lparr>px = 55, py = 65\<rparr> = Some ''A''"
  by (simp add: firstHit_def hit_def released_eq scene_defs includesPoint_def)

lemma firstHit_settled: "firstHit settled \<lparr>px = 55, py = 65\<rparr> = Some ''A''"
  by (simp add: firstHit_def hit_def settled_eq released_eq scene_defs includesPoint_def)

theorem begin_resting_offset_witness:
  "\<not> provider_disabled allCallbacks \<and> consistent released \<and>
   firstHit released \<lparr>px = 55, py = 65\<rparr> = Some ''A'' \<and>
   draggableStates released ''A'' = Some acting \<and>
   springs released (''A'', AxisX) = Some \<lparr>toValue = 0, velocity = 3\<rparr> \<and>
   (\<exists>s'. onBegin allCallbacks BEGAN 55 65 released = Inr s' \<and>
         springs s' (''A'', AxisX) = None \<and> springs s' (''A'', AxisY) = None \<and>
         draggableRestingOffsets s' = draggableRestingOffsets released) \<and>
   consistent settled \<and> firstHit settled \<lparr>px = 55, py = 65\<rparr> = Some ''A'' \<and>
   draggableStates settled ''A'' = Some resting \<and>
   draggableRestingOffsets settled ''A'' = Some \<lparr>px = 0, py = 0\<rparr> \<and>
   (\<exists>s'. onBegin allCallbacks BEGAN 55 65 settled = Inr s' \<and>
         draggableRestingOffsets s' ''A'' = Some \<lparr>px = 10, py = 20\<rparr>) \<and>
   draggableRestingOffsets (stateAfter (step allCallbacks (Begin BEGAN 55 65) settled)) \<noteq>
     draggableRestingOffsets settled"
proof -
  have a: "draggableStates released ''A'' = Some acting"
    and sp: "springs released (''A'', AxisX) = Some \<lparr>toValue = 0, velocity = 3\<rparr>"
    by (simp_all add: released_eq)
  have r: "draggableStates settled ''A'' = Some resting"
    and ro: "draggableRestingOffsets settled ''A'' = Some \<lparr>px = 0, py = 0\<rparr>"
    and lo: "draggableOffsets settled ''A'' = Some \<lparr>px = 10, py = 20\<rparr>"
    by (simp_all add: settled_eq released_eq scene_defs)
  note t1 = begin_resting_offset
    [of allCallbacks released 55 65 "''A''" acting BEGAN "Begin BEGAN 55 65" settled]
  note t2 = begin_resting_offset
    [of allCallbacks settled 55 65 "''A''" resting BEGAN "Begin BEGAN 55 65" settled]
  from t1 enabled_allCallbacks consistent_released firstHit_released a
  have 1: "\<exists>s'. onBegin allCallbacks BEGAN 55 65 released = Inr s' \<and>
         springs s' (''A'', AxisX) = None \<and> springs s' (''A'', AxisY) = None \<and>
         draggableRestingOffsets s' = draggableRestingOffsets released"
    by simp
  from t2 enabled_allCallbacks consistent_settled firstHit_settled r
  obtain s' where s': "onBegin allCallbacks BEGAN 55 65 settled = Inr s'"
    and u: "draggableRestingOffsets s' =
            (draggableRestingOffsets settled)(''A'' := draggableOffsets settled ''A'')"
    by auto
  from u lo have 2: "draggableRestingOffsets s' ''A'' = Some \<lparr>px = 10, py = 20\<rparr>" by simp
  with ro have "draggableRestingOffsets s' \<noteq> draggableRestingOffsets settled" by auto
  with s' have 3: "draggableRestingOffsets
      (stateAfter (step allCallbacks (Begin BEGAN 55 65) settled)) \<noteq>
     draggableRestingOffsets settled"
    by simp
  from enabled_allCallbacks consistent_released firstHit_released a sp 1
       consistent_settled firstHit_settled r ro s' 2 3
  show ?thesis by blast
qed

section \<open>Releasing the active item\<close>

lemma finalize_active_effect:
  assumes "draggableActiveId s = Some a"
    and "map_of (draggableLayouts s) a = Some l"
    and "draggableOffsets s a = Some off"
    and "draggableRestingOffsets s a = Some rest"
    and "draggableStates s a \<noteq> None"
  shows "\<exists>s'. onFinalize props state vx vy s = Inr s' \<and>
     calls s' = calls s @
       (if has_onFinalize props then [OnFinalize a (applyOffset l off)] else []) @
       (if state \<noteq> FAILED \<and> has_onDragEnd props
        then [OnDragEnd (draggableOptions s a)
                (case droppableActiveId s of None \<Rightarrow> None | Some d \<Rightarrow> droppableOptions s d)]
        else []) \<and>
     draggableActiveId s' = None \<and> droppableActiveId s' = None \<and>
     draggablePendingId s' = draggablePendingId s \<and>
     draggableStates s' = (draggableStates s)(a \<mapsto> acting) \<and>
     springs s' = (springs s)((a, AxisX) \<mapsto> \<lparr>toValue = px rest, velocity = vx\<rparr>,
                              (a, AxisY) \<mapsto> \<lparr>toValue = py rest, velocity = vy\<rparr>) \<and>
     panGestureState s' = state \<and>
     draggableOptions s' = draggableOptions s \<and>
     draggableOffsets s' = draggableOffsets s \<and>
     timers s' = timers s \<and> timeouts s' = timeouts s \<and> memo s' = memo s"
  using assms
  by (auto simp: onFinalize_def notifyFinalize_def notifyDragEnd_def moveBack_def
                 animatePointWithSpring_def Let_def
           cong: option.case_cong)




section \<open>The layout handed to the callback of Begin\<close>

text \<open>
  Claim C8 does not hold of the code. When A is grabbed again in mid-flight, at live offset
  (10, 20), Begin stores the translated layout in \<open>draggableActiveLayout\<close>, but the
  \<open>onBegin\<close> callback receives the registered layout, which is not translated.
\<close>

theorem begin_callback_gets_registered_layout:
  "draggableOffsets released ''A'' = Some \<lparr>px = 10, py = 20\<rparr> \<and>
   map_of (draggableLayouts released) ''A'' = Some \<lparr>rx = 0, ry = 0, rwidth = 100, rheight = 100\<rparr> \<and>
   (\<exists>s'. onBegin allCallbacks BEGAN 55 65 released = Inr s' \<and>
      draggableActiveId s' = Some ''A'' \<and>
      draggableActiveLayout s' = Some \<lparr>rx = 10, ry = 20, rwidth = 100, rheight = 100\<rparr> \<and>
      last (calls s') = OnBegin ''A'' \<lparr>rx = 0, ry = 0, rwidth = 100, rheight = 100\<rparr>)"
  by (simp add: released_eq handler_defs scene_defs includesPoint_def applyOffset_def Let_def)


section \<open>Unregistered identifiers\<close>

lemma getDistance_axis: "getDistance t 0 = \<bar>t\<bar>"
  by (simp add: getDistance_def)






section \<open>The timer of a pending item\<close>

lemma pendingOn_timers:
  assumes "pendingOn s a h"
  shows "\<exists>d. timers s = [(h, a, d)]"
proof -
  from assms have 1: "map fst (timers s) = [h]" and 2: "map (fst \<circ> snd) (timers s) = [a]"
    by (simp_all add: pendingOn_def)
  from 1 obtain t where t: "timers s = [t]" by (cases "timers s") auto
  with 1 2 have "fst t = h" "fst (snd t) = a" by simp_all
  then have "t = (h, a, snd (snd t))" by (cases t) auto
  with t have "timers s = [(h, a, snd (snd t))]" by simp
  then show ?thesis ..
qed

lemma timeout_fires:
  assumes "pendingOn s a h"
  shows "\<exists>s'. onTimeout h s = Inr s' \<and> draggableActiveId s' = Some a \<and>
     draggableStates s' = (draggableStates s)(a \<mapsto> dragging) \<and> timers s' = [] \<and>
     draggablePendingId s' = Some a \<and>
     draggableLayouts s' = draggableLayouts s \<and> droppableLayouts s' = droppableLayouts s \<and>
     draggableOptions s' = draggableOptions s \<and> droppableOptions s' = droppableOptions s \<and>
     draggableOffsets s' = draggableOffsets s \<and>
     draggableRestingOffsets s' = draggableRestingOffsets s"
proof -
  from pendingOn_timers [OF assms] obtain d where "timers s = [(h, a, d)]" ..
  with assms show ?thesis
    by (simp add: onTimeout_def pendingOn_def)
qed

section \<open>The pending identifier after a delayed drag\<close>

lemma pendingId_onFinalize:
  assumes "draggableActiveId s = Some a"
  shows "draggablePendingId (stateAfter (onFinalize props state vx vy s)) = draggablePendingId s"
    and "draggableActiveId (stateAfter (onFinalize props state vx vy s)) = None"
    and "onFinalize props state vx vy s = Inr s' \<Longrightarrow> droppableActiveId s' = None"
  using assms
  by (auto simp: onFinalize_def notifyFinalize_def notifyDragEnd_def moveBack_def
                 animatePointWithSpring_def Let_def
           split: option.splits sum.splits if_splits)

lemma pendingId_onTimeout:
  assumes "find (\<lambda>t. fst t = h) (timers s) = Some (h', i, d)"
  shows "draggableActiveId (stateAfter (onTimeout h s)) = Some i"
    and "draggablePendingId (stateAfter (onTimeout h s)) = draggablePendingId s"
  using assms by (auto simp: onTimeout_def Let_def split: option.splits)

text \<open>
  Claim C10. A Finalize that finds an active item sets \<open>draggableActiveId\<close> and
  \<open>droppableActiveId\<close> to none and leaves \<open>draggablePendingId\<close> as it was, and the deferred
  activation sets \<open>draggableActiveId\<close> without touching \<open>draggablePendingId\<close>. So after a
  delayed drag has activated and finalized, \<open>draggablePendingId\<close> still holds the item, and
  the next Update, finding no active item, runs the tolerance check against it: it clears
  \<open>draggablePendingId\<close> exactly when the distance exceeds the tolerance of that item.
\<close>

theorem stale_pending_id:
  "(draggableActiveId s = Some a \<longrightarrow>
      draggablePendingId (stateAfter (onFinalize props state vx vy s)) = draggablePendingId s \<and>
      draggableActiveId (stateAfter (onFinalize props state vx vy s)) = None \<and>
      (\<forall>s'. onFinalize props state vx vy s = Inr s' \<longrightarrow> droppableActiveId s' = None)) \<and>
   (find (\<lambda>t. fst t = h) (timers s) = Some (h', i, d) \<longrightarrow>
      draggableActiveId (stateAfter (onTimeout h s)) = Some i \<and>
      draggablePendingId (stateAfter (onTimeout h s)) = draggablePendingId s) \<and>
   (pendingOn s a h \<and> consistent s \<and> map_of (draggableLayouts s) a = Some l \<and>
    draggableOptions s a = Some opts \<longrightarrow>
      (\<exists>s3 s4. run props [TimerFired h, Finalize state vx vy] s = Inr s3 \<and>
          draggablePendingId s3 = Some a \<and> draggableActiveId s3 = None \<and>
          onUpdate props state' tx ty s3 = Inr s4 \<and>
          draggablePendingId s4 =
            (if getDistance tx ty > activationTolerance opts then None else Some a)))"
proof (intro conjI impI allI)
  assume a: "draggableActiveId s = Some a"
  from pendingId_onFinalize(1,2) [OF a]
  show "draggablePendingId (stateAfter (onFinalize props state vx vy s)) = draggablePendingId s"
    and "draggableActiveId (stateAfter (onFinalize props state vx vy s)) = None"
    by simp_all
  fix s' assume "onFinalize props state vx vy s = Inr s'"
  with a show "droppableActiveId s' = None" by (rule pendingId_onFinalize(3))
next
  assume f: "find (\<lambda>t. fst t = h) (timers s) = Some (h', i, d)"
  from pendingId_onTimeout [OF f]
  show "draggableActiveId (stateAfter (onTimeout h s)) = Some i"
    and "draggablePendingId (stateAfter (onTimeout h s)) = draggablePendingId s"
    by simp_all
next
  assume h: "pendingOn s a h \<and> consistent s \<and> map_of (draggableLayouts s) a = Some l \<and>
    draggableOptions s a = Some opts"
  then have p: "pendingOn s a h" and c: "consistent s"
    and l: "map_of (draggableLayouts s) a = Some l" and o: "draggableOptions s a = Some opts"
    by simp_all
  from consistent_layoutD [OF c l] obtain off rest
    where off: "draggableOffsets s a = Some off"
      and rest: "draggableRestingOffsets s a = Some rest"
    by (auto simp: registered_def)
  from timeout_fires [OF p]
  obtain s1 where t: "onTimeout h s = Inr s1" and a1: "draggableActiveId s1 = Some a"
    and st1: "draggableStates s1 = (draggableStates s)(a \<mapsto> dragging)"
    and p1: "draggablePendingId s1 = Some a"
    and same: "draggableLayouts s1 = draggableLayouts s" "draggableOptions s1 = draggableOptions s"
      "draggableOffsets s1 = draggableOffsets s"
      "draggableRestingOffsets s1 = draggableRestingOffsets s"
    by blast
  from l off rest st1 same
  have "map_of (draggableLayouts s1) a = Some l" "draggableOffsets s1 a = Some off"
    "draggableRestingOffsets s1 a = Some rest" "draggableStates s1 a \<noteq> None"
    by simp_all
  from finalize_active_effect [OF a1 this, of props state vx vy] p1 same(2)
  obtain s3 where f: "onFinalize props state vx vy s1 = Inr s3"
    and a3: "draggableActiveId s3 = None" and p3: "draggablePendingId s3 = Some a"
    and o3: "draggableOptions s3 = draggableOptions s"
    by auto
  from o o3 have o3': "draggableOptions s3 a = Some opts" by simp
  from t f have r: "run props [TimerFired h, Finalize state vx vy] s = Inr s3" by simp
  from a3 p3 o3'
  have "\<exists>s4. onUpdate props state' tx ty s3 = Inr s4 \<and>
          draggablePendingId s4 =
            (if getDistance tx ty > activationTolerance opts then None else Some a)"
    by (simp add: onUpdate_def updatePending_def)
  with r p3 a3
  show "\<exists>s3 s4. run props [TimerFired h, Finalize state vx vy] s = Inr s3 \<and>
          draggablePendingId s3 = Some a \<and> draggableActiveId s3 = None \<and>
          onUpdate props state' tx ty s3 = Inr s4 \<and>
          draggablePendingId s4 =
            (if getDistance tx ty > activationTolerance opts then None else Some a)"
    by blast
qed


lemma pendingOn_pressed: "pendingOn pressed ''L'' 1"
  by (simp add: pendingOn_def timeout_def pressed_eq scene_def)

lemma options_pressed: "draggableOptions pressed ''L'' = Some optionsL"
  by (simp add: pressed_eq scene_def)

lemma consistent_pressed: "consistent pressed"
  by (simp add: pressed_eq consistent_def registered_def scene_def)

theorem stale_pending_id_witness:
  "draggableActiveId dropping = Some ''A'' \<and>
   draggablePendingId (stateAfter (onFinalize allCallbacks END 0 0 dropping)) =
     draggablePendingId dropping \<and>
   draggableActiveId (stateAfter (onFinalize allCallbacks END 0 0 dropping)) = None \<and>
   find (\<lambda>t. fst t = 1) (timers pressed) = Some (1, ''L'', 500) \<and>
   draggableActiveId (stateAfter (onTimeout 1 pressed)) = Some ''L'' \<and>
   draggablePendingId (stateAfter (onTimeout 1 pressed)) = Some ''L'' \<and>
   pendingOn pressed ''L'' 1 \<and> consistent pressed \<and>
   map_of (draggableLayouts pressed) ''L'' = Some (square 0 200) \<and>
   draggableOptions pressed ''L'' = Some optionsL \<and>
   (\<exists>s3 s4. run allCallbacks [TimerFired 1, Finalize END 0 0] pressed = Inr s3 \<and>
       draggablePendingId s3 = Some ''L'' \<and> draggableActiveId s3 = None \<and>
       onUpdate allCallbacks ACTIVE 20 0 s3 = Inr s4 \<and> draggablePendingId s4 = None) \<and>
   (\<exists>s3 s4. run allCallbacks [TimerFired 1, Finalize END 0 0] pressed = Inr s3 \<and>
       draggablePendingId s3 = Some ''L'' \<and> draggableActiveId s3 = None \<and>
       onUpdate allCallbacks ACTIVE 3 0 s3 = Inr s4 \<and> draggablePendingId s4 = Some ''L'')"
proof -
  note t1 = stale_pending_id
    [where s = dropping and a = "''A''" and props = allCallbacks and state = END and vx = 0
       and vy = 0]
  note t2 = stale_pending_id
    [where s = pressed and a = "''L''" and props = allCallbacks and state = END and vx = 0
       and vy = 0 and h = 1 and h' = 1 and i = "''L''" and d = 500 and l = "square 0 200"
       and opts = optionsL and state' = ACTIVE and ty = 0]
  have a: "draggableActiveId dropping = Some ''A''" by (simp add: dropping_eq grabbed_eq)
  have f: "find (\<lambda>t. fst t = 1) (timers pressed) = Some (1, ''L'', 500)"
    and p: "draggablePendingId pressed = Some ''L''"
    and l: "map_of (draggableLayouts pressed) ''L'' = Some (square 0 200)"
    by (simp_all add: pressed_eq scene_def)
  have far: "getDistance 20 0 > activationTolerance optionsL"
    and near: "\<not> getDistance 3 0 > activationTolerance optionsL"
    by (simp_all add: optionsL_def getDistance_axis)
  from t1 a
  have 1: "draggablePendingId (stateAfter (onFinalize allCallbacks END 0 0 dropping)) =
     draggablePendingId dropping"
    "draggableActiveId (stateAfter (onFinalize allCallbacks END 0 0 dropping)) = None"
    by blast+
  from t2 f p
  have 2: "draggableActiveId (stateAfter (onTimeout 1 pressed)) = Some ''L''"
    "draggablePendingId (stateAfter (onTimeout 1 pressed)) = Some ''L''"
    by simp_all
  from t2 [where tx = 20] pendingOn_pressed consistent_pressed l options_pressed far
  have 3: "\<exists>s3 s4. run allCallbacks [TimerFired 1, Finalize END 0 0] pressed = Inr s3 \<and>
       draggablePendingId s3 = Some ''L'' \<and> draggableActiveId s3 = None \<and>
       onUpdate allCallbacks ACTIVE 20 0 s3 = Inr s4 \<and> draggablePendingId s4 = None"
    by simp
  from t2 [where tx = 3] pendingOn_pressed consistent_pressed l options_pressed near
  have 4: "\<exists>s3 s4. run allCallbacks [TimerFired 1, Finalize END 0 0] pressed = Inr s3 \<and>
       draggablePendingId s3 = Some ''L'' \<and> draggableActiveId s3 = None \<and>
       onUpdate allCallbacks ACTIVE 3 0 s3 = Inr s4 \<and> draggablePendingId s4 = Some ''L''"
    by simp
  from a 1 f 2 pendingOn_pressed consistent_pressed l options_pressed 3 4
  show ?thesis by blast
qed

section \<open>A cancelled activation that still fires\<close>

text \<open>
  Claim C6 does not hold of the code. L is pending and its timer is waiting. An Update 20
  away, beyond the tolerance 10, clears \<open>draggablePendingId\<close> and hands the call of
  \<^verbatim>\<open>clearActiveIdTimeout\<close> to the JS thread. When that call runs before the timer fires, the
  timer is cleared and L stays as it is. When the timer fires before the call has run, or
  when the memo has been recomputed in between, so that the call finds the variable
  \<^verbatim>\<open>timeout\<close> of the new closure empty, the activation runs although the Update has
  cancelled it, and L becomes the active, \<open>dragging\<close> item.
\<close>

theorem cancelled_activation_still_fires:
  "getDistance 20 0 > activationTolerance optionsL \<and>
   run allCallbacks [Begin BEGAN 50 250, JsRun] scene = Inr pressed \<and>
   draggableActiveId pressed = None \<and> draggablePendingId pressed = Some ''L'' \<and>
   draggableStates pressed ''L'' = Some pending \<and> timers pressed = [(1, ''L'', 500)] \<and>
   (\<exists>s. run allCallbacks [Update ACTIVE 20 0, JsRun, TimerFired 1] pressed = Inr s \<and>
        draggablePendingId s = None \<and> jsQueue s = [] \<and> timers s = [] \<and>
        draggableActiveId s = None \<and> draggableStates s ''L'' = Some pending) \<and>
   (\<exists>s. run allCallbacks [Update ACTIVE 20 0, TimerFired 1, JsRun] pressed = Inr s \<and>
        draggablePendingId s = None \<and> jsQueue s = [] \<and> timers s = [] \<and>
        draggableActiveId s = Some ''L'' \<and> draggableStates s ''L'' = Some dragging) \<and>
   (\<exists>s. run nowDisabled [Rememo, Update ACTIVE 20 0, JsRun, TimerFired 1] pressed = Inr s \<and>
        draggablePendingId s = None \<and> jsQueue s = [] \<and> timers s = [] \<and>
        draggableActiveId s = Some ''L'' \<and> draggableStates s ''L'' = Some dragging)"
proof (intro conjI)
  show "getDistance 20 0 > activationTolerance optionsL"
    by (simp add: optionsL_def getDistance_axis)
  show "run allCallbacks [Begin BEGAN 50 250, JsRun] scene = Inr pressed"
    by (simp add: pressed_def handler_defs scene_defs includesPoint_def applyOffset_def Let_def)
  show "draggableActiveId pressed = None" "draggablePendingId pressed = Some ''L''"
    "draggableStates pressed ''L'' = Some pending" "timers pressed = [(1, ''L'', 500)]"
    by (simp_all add: pressed_eq scene_def)
  show "\<exists>s. run allCallbacks [Update ACTIVE 20 0, JsRun, TimerFired 1] pressed = Inr s \<and>
        draggablePendingId s = None \<and> jsQueue s = [] \<and> timers s = [] \<and>
        draggableActiveId s = None \<and> draggableStates s ''L'' = Some pending"
    by (simp add: pressed_eq handler_defs scene_defs getDistance_axis Let_def)
  show "\<exists>s. run allCallbacks [Update ACTIVE 20 0, TimerFired 1, JsRun] pressed = Inr s \<and>
        draggablePendingId s = None \<and> jsQueue s = [] \<and> timers s = [] \<and>
        draggableActiveId s = Some ''L'' \<and> draggableStates s ''L'' = Some dragging"
    by (simp add: pressed_eq handler_defs scene_defs getDistance_axis Let_def)
  show "\<exists>s. run nowDisabled [Rememo, Update ACTIVE 20 0, JsRun, TimerFired 1] pressed = Inr s \<and>
        draggablePendingId s = None \<and> jsQueue s = [] \<and> timers s = [] \<and>
        draggableActiveId s = Some ''L'' \<and> draggableStates s ''L'' = Some dragging"
    by (simp add: pressed_eq handler_defs scene_defs nowDisabled_def getDistance_axis Let_def)
qed

end
